theory Spec2Isabelle
  imports Complex_Main "HOL-Library.Word"
begin

unbundle bit_operations_syntax

section \<open>JavaScript values\<close>

text \<open>
  A JavaScript string is a sequence of UTF-16 code units; \<open>str.charCodeAt(i)\<close> reads
  one of them. \<open>ascii\<close> writes an ASCII literal as such a sequence.
\<close>

type_synonym jsstring = "16 word list"

definition ascii :: "string \<Rightarrow> jsstring" where
  "ascii s = map (\<lambda>c. of_nat (of_char c)) s"

text \<open>
  The values an expression, a payload or a result can hold. A finite number is a
  rational (negative zero is zero); \<open>JNaN\<close> is \<open>NaN\<close>. The two infinities, truthy
  like every other non-zero number, are left out. \<open>JHost k\<close> is the function or object
  of the host that a plain object inherits under the name \<open>k\<close> from
  \<open>Object.prototype\<close>.
\<close>

datatype jsval =
    JUndefined
  | JNull
  | JBool bool
  | JNum rat
  | JNaN
  | JStr jsstring
  | JArr "jsval list"
  | JObj "(jsstring \<times> jsval) list"
  | JHost jsstring

text \<open>
  ECMAScript \<open>ToBoolean\<close>, applied by \<open>Array.prototype.every\<close>, \<open>some\<close>,
  \<open>if\<close>, \<open>&&\<close> and \<open>?:\<close> to the value they test.
\<close>

fun truthy :: "jsval \<Rightarrow> bool" where
  "truthy JUndefined = False"
| "truthy JNull = False"
| "truthy (JBool b) = b"
| "truthy (JNum n) = (n \<noteq> 0)"
| "truthy JNaN = False"
| "truthy (JStr s) = (s \<noteq> [])"
| "truthy (JArr xs) = True"
| "truthy (JObj kvs) = True"
| "truthy (JHost k) = True"

text \<open>\<open>a && b\<close> and \<open>a ?? b\<close>.\<close>

definition js_and :: "jsval \<Rightarrow> jsval \<Rightarrow> jsval" where
  "js_and a b = (if truthy a then b else a)"

definition nullish_coalesce :: "jsval \<Rightarrow> jsval \<Rightarrow> jsval" where
  "nullish_coalesce a b = (if a = JUndefined \<or> a = JNull then b else a)"

text \<open>A parameter with a default value: the default is taken when the caller passes
  nothing.\<close>

definition defaultParam :: "'a option \<Rightarrow> 'a \<Rightarrow> 'a" where
  "defaultParam arg dflt = (case arg of None \<Rightarrow> dflt | Some a \<Rightarrow> a)"

text \<open>
  Thrown values. \<open>jexl.evalSync\<close> throws on an expression it cannot parse or evaluate;
  reading a property of \<open>undefined\<close> throws a \<open>TypeError\<close>.
\<close>

datatype error = ExpressionError string | TypeError string

subsection \<open>Objects used as dictionaries\<close>

text \<open>
  A plain object (an object literal, or what \<open>JSON.parse\<close> returns) is the
  association list of its own properties in insertion order; the first pair of a key is
  the property. Its prototype is \<open>Object.prototype\<close>.
  \<^item> \<open>Object.keys\<close>, \<open>values\<close> and \<open>entries\<close> list the own properties: the
    array-index keys first, in ascending numeric order, then the other keys in insertion
    order.
  \<^item> A read \<open>obj[k]\<close> gives the own property, else the member that
    \<open>Object.prototype\<close> has under that name (ECMAScript with its Annex B), else
    \<open>undefined\<close>.
  \<^item> An assignment \<open>obj[k] = v\<close> adds or updates an own property, except for the key
    \<open>__proto__\<close> on an object that does not own it: there the setter of
    \<open>Object.prototype\<close> runs, which changes the prototype or does nothing and adds no
    own property.
\<close>

type_synonym 'v jsobject = "(jsstring \<times> 'v) list"

fun obj_set :: "'v jsobject \<Rightarrow> jsstring \<Rightarrow> 'v \<Rightarrow> 'v jsobject" where
  "obj_set [] k v = [(k, v)]"
| "obj_set ((k', v') # rest) k v =
     (if k' = k then (k, v) # rest else (k', v') # obj_set rest k v)"

definition objectPrototypeKeys :: "jsstring list" where
  "objectPrototypeKeys =
     [ascii ''constructor'', ascii ''hasOwnProperty'', ascii ''isPrototypeOf'',
      ascii ''propertyIsEnumerable'', ascii ''toLocaleString'', ascii ''toString'',
      ascii ''valueOf'', ascii ''__proto__'', ascii ''__defineGetter__'',
      ascii ''__defineSetter__'', ascii ''__lookupGetter__'', ascii ''__lookupSetter__'']"

definition protoKey :: jsstring where
  "protoKey = ascii ''__proto__''"

definition prop_read :: "(jsstring \<rightharpoonup> jsval) \<Rightarrow> jsstring \<Rightarrow> jsval" where
  "prop_read own k =
     (case own k of
        Some v \<Rightarrow> v
      | None \<Rightarrow> if k \<in> set objectPrototypeKeys then JHost k else JUndefined)"

definition obj_assign :: "'v jsobject \<Rightarrow> jsstring \<Rightarrow> 'v \<Rightarrow> 'v jsobject" where
  "obj_assign obj k v =
     (if k = protoKey \<and> map_of obj k = None then obj else obj_set obj k v)"

definition isDigit :: "16 word \<Rightarrow> bool" where
  "isDigit c = (48 \<le> c \<and> c \<le> 57)"

definition index_value :: "jsstring \<Rightarrow> nat" where
  "index_value s = foldl (\<lambda>n c. 10 * n + (unat c - 48)) 0 s"

definition isArrayIndex :: "jsstring \<Rightarrow> bool" where
  "isArrayIndex s =
     (s \<noteq> [] \<and> list_all isDigit s \<and> (if hd s = 48 then length s = 1 else True)
      \<and> index_value s < 2 ^ 32 - 1)"

definition ownKeys :: "'v jsobject \<Rightarrow> jsstring list" where
  "ownKeys obj =
     (let ks = rev (remdups (rev (map fst obj)))
      in sort_key index_value (filter isArrayIndex ks)
         @ filter (\<lambda>k. \<not> isArrayIndex k) ks)"

definition Object_entries :: "'v jsobject \<Rightarrow> (jsstring \<times> 'v) list" where
  "Object_entries obj =
     List.map_filter (\<lambda>k. map_option (Pair k) (map_of obj k)) (ownKeys obj)"

definition Object_values :: "'v jsobject \<Rightarrow> 'v list" where
  "Object_values obj = map snd (Object_entries obj)"

section \<open>Data model (schema.ts)\<close>

datatype FlagType = TBoolean | TPayload | TVariant

text \<open>An absent optional \<open>payload\<close> is \<open>JUndefined\<close>.\<close>

record Variation =
  variation_id :: jsstring
  weight :: int
  variation_payload :: jsval

record RolloutStep =
  start :: jsstring
  percentage :: "int option"
  segment :: "jsstring option"

record FeatureFlag =
  flag_id :: jsstring
  flag_type :: FlagType
  enabled :: bool
  rules :: "jsstring list"
  segments :: "jsstring list"
  rollout :: int
  rollouts :: "RolloutStep list"
  payload :: jsval
  variations :: "Variation list"
  isTrackable :: bool

record FlagEvaluationInput =
  input_id :: "jsstring option"
  user :: jsval
  page_url :: "jsstring option"
  geo :: jsval
  request_headers :: "(jsstring \<times> jsstring) list"

record FlagResult =
  result_type :: FlagType
  result :: jsval
  isEval :: bool

record AppData =
  flags :: "FeatureFlag jsobject"
  segments_of :: "jsstring jsobject"


section \<open>Hash and bucket (engine.ts)\<close>

text \<open>
  \<open>hval\<close> is a JavaScript number. \<open>^\<close> and \<open><<\<close> convert their operands with
  \<open>ToInt32\<close> and yield a signed 32-bit value; \<open>+\<close> and \<open>+=\<close> add numbers without
  wrapping (the sums stay far below \<open>2^53\<close>, so they are exact); \<open>>>> 0\<close> is
  \<open>ToUint32\<close>.
\<close>

definition ToInt32 :: "int \<Rightarrow> int" where
  "ToInt32 x = (let m = x mod 2 ^ 32 in if 2 ^ 31 \<le> m then m - 2 ^ 32 else m)"

definition ToUint32 :: "int \<Rightarrow> int" where
  "ToUint32 x = x mod 2 ^ 32"

definition js_xor :: "int \<Rightarrow> int \<Rightarrow> int" where
  "js_xor a b = ToInt32 (ToInt32 a XOR ToInt32 b)"

definition js_shl :: "int \<Rightarrow> nat \<Rightarrow> int" where
  "js_shl a k = ToInt32 (ToInt32 a * 2 ^ (k mod 32))"

fun hashFnv32a_loop :: "int \<Rightarrow> jsstring \<Rightarrow> int" where
  "hashFnv32a_loop hval [] = hval"
| "hashFnv32a_loop hval (c # cs) =
     (let h = js_xor hval (uint c)
      in hashFnv32a_loop
           (h + (js_shl h 1 + js_shl h 4 + js_shl h 7 + js_shl h 8 + js_shl h 24)) cs)"

definition hashFnv32a :: "jsstring \<Rightarrow> int" where
  "hashFnv32a str = ToUint32 (hashFnv32a_loop 0x811c9dc5 str)"

text \<open>
  The template string \<open>`${userId}:${flagKey}`\<close>; an \<open>undefined\<close> user id is
  interpolated as the text \<open>undefined\<close>.
\<close>

definition hashInput :: "jsstring option \<Rightarrow> jsstring \<Rightarrow> jsstring" where
  "hashInput userId flagKey =
     (case userId of None \<Rightarrow> ascii ''undefined'' | Some s \<Rightarrow> s) @ ascii '':'' @ flagKey"

definition userPercentageHash :: "jsstring option \<Rightarrow> jsstring \<Rightarrow> int" where
  "userPercentageHash userId flagKey =
     (let input = hashInput userId flagKey;
          hash = hashFnv32a input
      in (hash mod 100) + 1)"

fun chooseVariant_loop :: "int \<Rightarrow> int \<Rightarrow> Variation list \<Rightarrow> jsstring option" where
  "chooseVariant_loop bucket cumulative [] = None"
| "chooseVariant_loop bucket cumulative (v # vs) =
     (let cumulative' = cumulative + weight v
      in if bucket \<le> cumulative' then Some (variation_id v)
         else chooseVariant_loop bucket cumulative' vs)"

definition chooseVariant :: "jsstring option \<Rightarrow> jsstring \<Rightarrow> Variation list \<Rightarrow> jsstring option" where
  "chooseVariant userId flagKey variants =
     chooseVariant_loop (userPercentageHash userId flagKey) 0 variants"

definition isUserInRollout :: "jsstring option \<Rightarrow> jsstring \<Rightarrow> int \<Rightarrow> bool" where
  "isUserInRollout userId flagKey pct =
     (if pct = 100 then True else userPercentageHash userId flagKey \<le> pct)"

section \<open>Rollout steps (engine.ts)\<close>

text \<open>
  Two things the engine calls are not part of the repository and are parameters here:
  \<^item> \<open>parseDate s\<close> is \<open>new Date(s).getTime()\<close>, with \<open>None\<close> for \<open>NaN\<close>;
  \<^item> \<open>evalSync e input\<close> is \<open>jexl.evalSync(e, input)\<close>: either the thrown error or
    the value of the expression. Its first argument is whatever value the engine passes:
    an expression text \<open>JStr s\<close>, or \<open>undefined\<close>, or an inherited member.
  \<open>segs\<close> holds the own properties of the \<open>segments\<close> object a step is given.
\<close>

type_synonym evaluator = "jsval \<Rightarrow> FlagEvaluationInput \<Rightarrow> error + jsval"

definition evaluateRolloutStep ::
  "(jsstring \<Rightarrow> int option) \<Rightarrow> evaluator \<Rightarrow> RolloutStep \<Rightarrow> (jsstring \<rightharpoonup> jsval)
     \<Rightarrow> jsstring option \<Rightarrow> jsstring \<Rightarrow> FlagEvaluationInput \<Rightarrow> int \<Rightarrow> error + jsval" where
  "evaluateRolloutStep parseDate evalSync step segs userId flagKey input now =
     (if (case parseDate (start step) of None \<Rightarrow> False | Some startTime \<Rightarrow> now < startTime)
      then Inr (JBool False)
      else
        case (case segment step of
                None \<Rightarrow> Inr (JBool True)
              | Some s \<Rightarrow>
                  if s = [] then Inr (JBool True)
                  else if truthy (prop_read segs s) then evalSync (prop_read segs s) input
                  else Inr (JBool False)) of
          Inl err \<Rightarrow> Inl err
        | Inr stepSegmentPassed \<Rightarrow>
            (let stepPercentagePassed =
                   (case percentage step of
                      Some p \<Rightarrow> isUserInRollout userId flagKey p
                    | None \<Rightarrow> True)
             in Inr (js_and stepSegmentPassed (JBool stepPercentagePassed))))"

fun evaluateRolloutSteps ::
  "(jsstring \<Rightarrow> int option) \<Rightarrow> evaluator \<Rightarrow> RolloutStep list \<Rightarrow> (jsstring \<rightharpoonup> jsval)
     \<Rightarrow> jsstring option \<Rightarrow> jsstring \<Rightarrow> FlagEvaluationInput \<Rightarrow> int \<Rightarrow> error + bool" where
  "evaluateRolloutSteps parseDate evalSync [] segs userId flagKey input now = Inr False"
| "evaluateRolloutSteps parseDate evalSync (step # rest) segs userId flagKey input now =
     (case evaluateRolloutStep parseDate evalSync step segs userId flagKey input now of
        Inl err \<Rightarrow> Inl err
      | Inr v \<Rightarrow>
          if truthy v then Inr True
          else evaluateRolloutSteps parseDate evalSync rest segs userId flagKey input now)"

section \<open>The flag decision (engine.ts)\<close>

definition getDefaultFlag :: "FeatureFlag \<Rightarrow> FlagResult" where
  "getDefaultFlag flag =
     (case flag_type flag of
        TBoolean \<Rightarrow> \<lparr>result_type = TBoolean, result = JBool False, isEval = False\<rparr>
      | TPayload \<Rightarrow> \<lparr>result_type = TPayload, result = JNull, isEval = False\<rparr>
      | TVariant \<Rightarrow>
          \<lparr>result_type = TVariant,
           result = nullish_coalesce
                      (case variations flag of [] \<Rightarrow> JUndefined | v # _ \<Rightarrow> variation_payload v)
                      (case variations flag of [] \<Rightarrow> JUndefined | v # _ \<Rightarrow> JStr (variation_id v)),
           isEval = False\<rparr>)"

text \<open>\<open>rules.every(...)\<close> and \<open>values.some(...)\<close>, each stopping at the first decisive
  element and propagating what \<open>evalSync\<close> throws.\<close>

fun every_rule :: "evaluator \<Rightarrow> FlagEvaluationInput \<Rightarrow> jsstring list \<Rightarrow> error + bool" where
  "every_rule evalSync input [] = Inr True"
| "every_rule evalSync input (rule # rest) =
     (case evalSync (JStr rule) input of
        Inl err \<Rightarrow> Inl err
      | Inr v \<Rightarrow> if truthy v then every_rule evalSync input rest else Inr False)"

fun some_rule :: "evaluator \<Rightarrow> FlagEvaluationInput \<Rightarrow> jsval list \<Rightarrow> error + bool" where
  "some_rule evalSync input [] = Inr False"
| "some_rule evalSync input (rule # rest) =
     (case evalSync rule input of
        Inl err \<Rightarrow> Inl err
      | Inr v \<Rightarrow> if truthy v then Inr True else some_rule evalSync input rest)"

text \<open>
  \<open>segments[segmentKey]\<close> on the tenant's segments object, whose own properties are
  the expression texts \<open>segs\<close>, and the object that \<open>flag.segments.reduce\<close> builds
  from \<open>{}\<close> by \<open>acc[segmentKey] = segments[segmentKey]\<close>.
\<close>

definition segment_read :: "(jsstring \<rightharpoonup> jsstring) \<Rightarrow> jsstring \<Rightarrow> jsval" where
  "segment_read segs k = prop_read (\<lambda>x. map_option JStr (segs x)) k"

definition flagSegments_of :: "jsstring list \<Rightarrow> (jsstring \<rightharpoonup> jsstring) \<Rightarrow> jsval jsobject" where
  "flagSegments_of keys segs =
     foldl (\<lambda>acc segmentKey. obj_assign acc segmentKey (segment_read segs segmentKey)) [] keys"

text \<open>The \<open>switch (flag.type)\<close> that ends \<open>evaluateFlag\<close>: the typed result of a flag
  that passed every gate.\<close>

definition flagTypeResult :: "FeatureFlag \<Rightarrow> jsstring option \<Rightarrow> error + FlagResult" where
  "flagTypeResult flag userId =
     (case flag_type flag of
        TBoolean \<Rightarrow> Inr \<lparr>result_type = TBoolean, result = JBool True, isEval = True\<rparr>
      | TPayload \<Rightarrow>
          Inr \<lparr>result_type = TPayload, result = nullish_coalesce (payload flag) JNull, isEval = True\<rparr>
      | TVariant \<Rightarrow>
          (let variantId = chooseVariant userId (flag_id flag) (variations flag);
               variant = (case variantId of
                            None \<Rightarrow> None
                          | Some i \<Rightarrow> find (\<lambda>v. variation_id v = i) (variations flag))
           in case variant of
                None \<Rightarrow> Inl (TypeError ''variant is undefined'')
              | Some v \<Rightarrow>
                  Inr \<lparr>result_type = TVariant,
                       result = nullish_coalesce (variation_payload v) (JStr (variation_id v)),
                       isEval = True\<rparr>))"

text \<open>
  \<open>jexl now\<close> is the evaluator after \<open>jexl.addFunction("now", () => now)\<close>;
  \<open>Date_now\<close> is the clock reading that the default parameter takes when the caller
  passes no \<open>now\<close>.
\<close>

definition evaluateFlag ::
  "(jsstring \<Rightarrow> int option) \<Rightarrow> (int \<Rightarrow> evaluator) \<Rightarrow> int
     \<Rightarrow> FlagEvaluationInput \<Rightarrow> FeatureFlag \<Rightarrow> (jsstring \<rightharpoonup> jsstring) \<Rightarrow> int option
     \<Rightarrow> error + FlagResult" where
  "evaluateFlag parseDate jexl Date_now input flag segs now_opt =
     (let now = defaultParam now_opt Date_now;
          evalSync = jexl now
      in if \<not> enabled flag then Inr (getDefaultFlag flag)
         else
           (let userId = input_id input;
                flagSegments = flagSegments_of (segments flag) segs
            in (case every_rule evalSync input (rules flag) of
                  Inl err \<Rightarrow> Inl err
                | Inr rulesPassed \<Rightarrow>
                    (if \<not> rulesPassed then Inr (getDefaultFlag flag)
                     else
                       (let hasSegments = (Object_values flagSegments \<noteq> []);
                            hasRolloutes = (rollouts flag \<noteq> [])
                        in (case (if \<not> hasRolloutes \<and> hasSegments
                                  then some_rule evalSync input (Object_values flagSegments)
                                  else Inr True) of
                              Inl err \<Rightarrow> Inl err
                            | Inr segmentsPassed \<Rightarrow>
                                (if \<not> segmentsPassed then Inr (getDefaultFlag flag)
                                 else
                                   (case (if hasRolloutes
                                          then evaluateRolloutSteps parseDate evalSync
                                                 (rollouts flag) (map_of flagSegments) userId
                                                 (flag_id flag) input now
                                          else Inr (isUserInRollout userId (flag_id flag)
                                                      (rollout flag))) of
                                      Inl err \<Rightarrow> Inl err
                                    | Inr included \<Rightarrow>
                                        (if \<not> included then Inr (getDefaultFlag flag)
                                         else flagTypeResult flag userId)))))))))"

text \<open>The loop of the batch route \<open>POST /eval\<close> (api.ts): one call per flag of the
  tenant, no handler around it, the answers collected under the flag keys.\<close>

fun evalAll ::
  "(jsstring \<Rightarrow> int option) \<Rightarrow> (int \<Rightarrow> evaluator) \<Rightarrow> int \<Rightarrow> FlagEvaluationInput
     \<Rightarrow> (jsstring \<rightharpoonup> jsstring) \<Rightarrow> (jsstring \<times> FeatureFlag) list
     \<Rightarrow> (FlagType \<times> jsval) jsobject \<Rightarrow> error + (FlagType \<times> jsval) jsobject" where
  "evalAll parseDate jexl Date_now input segs [] flagResult = Inr flagResult"
| "evalAll parseDate jexl Date_now input segs ((flagKey, flag) # rest) flagResult =
     (case evaluateFlag parseDate jexl Date_now input flag segs None of
        Inl err \<Rightarrow> Inl err
      | Inr r \<Rightarrow>
          evalAll parseDate jexl Date_now input segs rest
            (obj_assign flagResult flagKey (flag_type flag, result r)))"

definition evalRoute ::
  "(jsstring \<Rightarrow> int option) \<Rightarrow> (int \<Rightarrow> evaluator) \<Rightarrow> int \<Rightarrow> FlagEvaluationInput
     \<Rightarrow> AppData \<Rightarrow> error + (FlagType \<times> jsval) jsobject" where
  "evalRoute parseDate jexl Date_now input data =
     evalAll parseDate jexl Date_now input (map_of (segments_of data))
       (Object_entries (flags data)) []"

section \<open>The definition store (storage.ts)\<close>






section \<open>The hash as the specification words it\<close>

text \<open>
  The reference the specification names: FNV-1a, 32 bit, over bytes (offset basis
  \<open>0x811c9dc5\<close>, prime \<open>0x01000193\<close>), applied to the UTF-8 encoding of the text.
  \<open>utf8_encode\<close> encodes a sequence of UTF-16 code units; a surrogate pair becomes one
  four-byte sequence and a lone surrogate the replacement character.
  \<open>fnv1a32_units\<close> is the same fold taken over the code units themselves.
\<close>

definition fnv1a32 :: "8 word list \<Rightarrow> 32 word" where
  "fnv1a32 bytes = foldl (\<lambda>h b. (h XOR ucast b) * 0x01000193) 0x811c9dc5 bytes"

definition fnv1a32_units :: "jsstring \<Rightarrow> 32 word" where
  "fnv1a32_units str = foldl (\<lambda>h c. (h XOR ucast c) * 0x01000193) 0x811c9dc5 str"

definition isHigh :: "16 word \<Rightarrow> bool" where
  "isHigh c = (0xD800 \<le> c \<and> c < 0xDC00)"

definition isLow :: "16 word \<Rightarrow> bool" where
  "isLow c = (0xDC00 \<le> c \<and> c < 0xE000)"

definition utf8_unit :: "16 word \<Rightarrow> 8 word list" where
  "utf8_unit c =
     (if c < 0x80 then [ucast c]
      else if c < 0x800 then [0xC0 OR ucast (drop_bit 6 c), 0x80 OR ucast (c AND 0x3F)]
      else if isHigh c \<or> isLow c then [0xEF, 0xBF, 0xBD]
      else [0xE0 OR ucast (drop_bit 12 c), 0x80 OR ucast (drop_bit 6 c AND 0x3F),
            0x80 OR ucast (c AND 0x3F)])"

definition utf8_pair :: "16 word \<Rightarrow> 16 word \<Rightarrow> 8 word list" where
  "utf8_pair c d =
     (let cp = (0x10000 :: 32 word) + push_bit 10 (ucast (c - 0xD800)) + ucast (d - 0xDC00)
      in [0xF0 OR ucast (drop_bit 18 cp), 0x80 OR ucast (drop_bit 12 cp AND 0x3F),
          0x80 OR ucast (drop_bit 6 cp AND 0x3F), 0x80 OR ucast (cp AND 0x3F)])"

fun utf8_encode :: "jsstring \<Rightarrow> 8 word list" where
  "utf8_encode [] = []"
| "utf8_encode [c] = utf8_unit c"
| "utf8_encode (c # d # ds) =
     (if isHigh c \<and> isLow d then utf8_pair c d @ utf8_encode ds
      else utf8_unit c @ utf8_encode (d # ds))"

definition spec_bucket :: "jsstring \<Rightarrow> jsstring \<Rightarrow> int" where
  "spec_bucket identity flagKey =
     (uint (fnv1a32 (utf8_encode (identity @ ascii '':'' @ flagKey))) mod 100) + 1"

section \<open>Notions used in the statements\<close>

text \<open>
  \<open>isAscii s\<close>: every code unit of \<open>s\<close> is below \<open>0x80\<close>.
  \<open>without_id ev\<close>: the evaluator \<open>ev\<close> shown the input with its \<open>id\<close> removed.
  \<open>all_truthy ev input es\<close>: each expression of \<open>es\<close> evaluates, and to a truthy
  value.
  \<open>all_falsy_steps ... steps\<close>: each step of \<open>steps\<close> evaluates, and to a falsy value.
  \<open>no_step_segment steps\<close>: no step of \<open>steps\<close> sets a segment.
  \<open>strings_only ev\<close>: the evaluator throws on every argument that is not a string, as
  the expression library does (it tokenizes its argument with \<open>split\<close>).
  \<open>own_segment_ids keys\<close>: the ids of \<open>keys\<close> other than \<open>__proto__\<close>.
\<close>

definition isAscii :: "jsstring \<Rightarrow> bool" where
  "isAscii s = list_all (\<lambda>c. c < 0x80) s"

definition without_id :: "evaluator \<Rightarrow> evaluator" where
  "without_id ev e input = ev e (input\<lparr>input_id := None\<rparr>)"

definition all_truthy :: "evaluator \<Rightarrow> FlagEvaluationInput \<Rightarrow> jsstring list \<Rightarrow> bool" where
  "all_truthy ev input es =
     list_all (\<lambda>e. case ev (JStr e) input of Inl err \<Rightarrow> False | Inr v \<Rightarrow> truthy v) es"

definition all_falsy_steps ::
  "(jsstring \<Rightarrow> int option) \<Rightarrow> evaluator \<Rightarrow> (jsstring \<rightharpoonup> jsval) \<Rightarrow> jsstring option
     \<Rightarrow> jsstring \<Rightarrow> FlagEvaluationInput \<Rightarrow> int \<Rightarrow> RolloutStep list \<Rightarrow> bool" where
  "all_falsy_steps parseDate ev segs userId flagKey input now steps =
     list_all (\<lambda>step. case evaluateRolloutStep parseDate ev step segs userId flagKey input now of
                        Inl err \<Rightarrow> False
                      | Inr v \<Rightarrow> \<not> truthy v) steps"



definition own_segment_ids :: "jsstring list \<Rightarrow> jsstring list" where
  "own_segment_ids keys = filter (\<lambda>k. k \<noteq> protoKey) keys"

section \<open>Concrete inputs\<close>

text \<open>
  The inputs of the repository's tests (\<open>createMockBooleanFlag\<close>, \<open>createInput\<close>) and
  the readings of the two external functions on the few strings used below: the
  timestamps are the epoch milliseconds of the ISO dates, and \<open>ex_jexl\<close> answers as the
  expression library does on these expressions (\<open>1 +\<close> does not parse, and an
  argument that is not a string cannot be tokenized).
\<close>

definition mockFlag :: "jsstring \<Rightarrow> FeatureFlag" where
  "mockFlag key =
     \<lparr>flag_id = key, flag_type = TBoolean, enabled = True, rules = [], segments = [],
      rollout = 100, rollouts = [], payload = JUndefined, variations = [],
      isTrackable = False\<rparr>"

definition mockInput :: "jsstring option \<Rightarrow> FlagEvaluationInput" where
  "mockInput uid =
     \<lparr>input_id = uid, user = JObj [], page_url = None, geo = JObj [],
      request_headers = []\<rparr>"

definition ex_parseDate :: "jsstring \<Rightarrow> int option" where
  "ex_parseDate s =
     (if s = ascii ''2024-01-01T00:00:00.000Z'' then Some 1704067200000
      else if s = ascii ''2025-01-01T00:00:00.000Z'' then Some 1735689600000
      else None)"

definition ex_jexl :: "int \<Rightarrow> evaluator" where
  "ex_jexl now e input =
     (case e of
        JStr s \<Rightarrow>
          if s = ascii ''true'' then Inr (JBool True)
          else if s = ascii ''false'' then Inr (JBool False)
          else if s = ascii ''[]'' then Inr (JArr [])
          else if s = ascii ''0'' then Inr (JNum 0)
          else Inl (ExpressionError ''parse error'')
      | _ \<Rightarrow> Inl (TypeError ''str.split is not a function''))"

definition jose :: jsstring where
  "jose = [0x6A, 0x6F, 0x73, 0xE9]"

definition abVariations :: "Variation list" where
  "abVariations =
     [\<lparr>variation_id = ascii ''control'', weight = 30, variation_payload = JStr (ascii ''A'')\<rparr>,
      \<lparr>variation_id = ascii ''test'', weight = 30, variation_payload = JStr (ascii ''B'')\<rparr>]"

definition user123 :: FlagEvaluationInput where
  "user123 = mockInput (Some (ascii ''user-123''))"

definition brokenRuleFlag :: FeatureFlag where
  "brokenRuleFlag = (mockFlag (ascii ''broken''))\<lparr>rules := [ascii ''true'', ascii ''1 +'']\<rparr>"

definition falseRuleFlag :: FeatureFlag where
  "falseRuleFlag = (mockFlag (ascii ''blocked''))\<lparr>rules := [ascii ''false'', ascii ''1 +'']\<rparr>"

definition emptyArrayRuleFlag :: FeatureFlag where
  "emptyArrayRuleFlag = (mockFlag (ascii ''listed''))\<lparr>rules := [ascii ''[]'']\<rparr>"

definition zeroRuleFlag :: FeatureFlag where
  "zeroRuleFlag = (mockFlag (ascii ''zero''))\<lparr>rules := [ascii ''0'']\<rparr>"

definition underweightFlag :: FeatureFlag where
  "underweightFlag =
     (mockFlag (ascii ''new-dashboard''))\<lparr>flag_type := TVariant, variations := abVariations\<rparr>"

definition tenantWithBrokenRule :: AppData where
  "tenantWithBrokenRule =
     \<lparr>flags = [(ascii ''broken'', brokenRuleFlag), (ascii ''plain'', mockFlag (ascii ''plain''))],
      segments_of = []\<rparr>"

definition tenantWithoutBrokenRule :: AppData where
  "tenantWithoutBrokenRule =
     \<lparr>flags = [(ascii ''plain'', mockFlag (ascii ''plain''))], segments_of = []\<rparr>"

definition disabledFlag :: FeatureFlag where
  "disabledFlag = (mockFlag (ascii ''off''))\<lparr>enabled := False, rules := [ascii ''1 +'']\<rparr>"

definition jan2024 :: jsstring where
  "jan2024 = ascii ''2024-01-01T00:00:00.000Z''"

definition unparsableStep :: RolloutStep where
  "unparsableStep = \<lparr>start = ascii ''soon'', percentage = Some 100, segment = None\<rparr>"

definition bareStep :: RolloutStep where
  "bareStep = \<lparr>start = jan2024, percentage = None, segment = None\<rparr>"


definition betaStep :: RolloutStep where
  "betaStep = \<lparr>start = jan2024, percentage = Some 100, segment = Some (ascii ''beta'')\<rparr>"



definition noSegments :: "jsstring \<rightharpoonup> jsval" where
  "noSegments = Map.empty"




definition brokenStep :: RolloutStep where
  "brokenStep = \<lparr>start = jan2024, percentage = None, segment = Some (ascii ''broken'')\<rparr>"

definition stagedSegments :: "jsstring \<rightharpoonup> jsstring" where
  "stagedSegments = [ascii ''broken'' \<mapsto> ascii ''1 +'', ascii ''nobody'' \<mapsto> ascii ''false'']"

definition stagedFlag :: FeatureFlag where
  "stagedFlag =
     (mockFlag (ascii ''staged''))
       \<lparr>segments := [ascii ''broken''], rollout := 0,
        rollouts := [betaStep, bareStep, brokenStep]\<rparr>"



definition mid2024 :: int where
  "mid2024 = 1718000000000"












section \<open>The hash is FNV-1a over the code units\<close>

lemma word_of_int_mod32: "(word_of_int (x mod 4294967296) :: 32 word) = word_of_int x"
  using wi_bintr [of 32 x, where 'a = 32] by (simp add: take_bit_eq_mod)

lemma word_of_ToInt32: "(word_of_int (ToInt32 x) :: 32 word) = word_of_int x"
  by (simp add: ToInt32_def Let_def word_of_int_mod32)

lemma word_of_js_xor: "(word_of_int (js_xor a b) :: 32 word) = word_of_int a XOR word_of_int b"
  by (simp add: js_xor_def word_of_ToInt32 of_int_xor_eq)

lemma word_of_js_shl:
  "k < 32 \<Longrightarrow> (word_of_int (js_shl a k) :: 32 word) = word_of_int a * 2 ^ k"
  by (simp add: js_shl_def word_of_ToInt32)

lemma word_of_shift_sum:
  "(word_of_int (h + (js_shl h 1 + js_shl h 4 + js_shl h 7 + js_shl h 8 + js_shl h 24)) :: 32 word)
     = word_of_int h * 16777619"
proof -
  have "(word_of_int (h + (js_shl h 1 + js_shl h 4 + js_shl h 7 + js_shl h 8 + js_shl h 24)) :: 32 word)
     = word_of_int h + (word_of_int h * 2 ^ 1 + word_of_int h * 2 ^ 4 + word_of_int h * 2 ^ 7
        + word_of_int h * 2 ^ 8 + word_of_int h * 2 ^ 24)"
    by (simp only: of_int_add word_of_js_shl)
  also have "\<dots> = word_of_int h * 16777619"
    by (simp add: algebra_simps)
  finally show ?thesis .
qed

lemma word_of_hash_loop:
  "(word_of_int (hashFnv32a_loop h cs) :: 32 word)
     = foldl (\<lambda>w c. (w XOR ucast c) * 16777619) (word_of_int h) cs"
proof (induction cs arbitrary: h)
  case Nil
  show ?case by simp
next
  case (Cons c cs)
  define h1 where "h1 = js_xor h (uint c)"
  have x: "(word_of_int h1 :: 32 word) = word_of_int h XOR ucast c"
    by (simp add: h1_def word_of_js_xor)
  have "(word_of_int (hashFnv32a_loop h (c # cs)) :: 32 word)
      = word_of_int (hashFnv32a_loop
          (h1 + (js_shl h1 1 + js_shl h1 4 + js_shl h1 7 + js_shl h1 8 + js_shl h1 24)) cs)"
    by (simp only: hashFnv32a_loop.simps Let_def h1_def)
  also have "\<dots> = foldl (\<lambda>w c. (w XOR ucast c) * 16777619) (word_of_int h1 * 16777619) cs"
    by (simp only: Cons.IH word_of_shift_sum)
  also have "\<dots> = foldl (\<lambda>w c. (w XOR ucast c) * 16777619) (word_of_int h) (c # cs)"
    by (simp only: x foldl_Cons)
  finally show ?case .
qed

lemma hashFnv32a_units: "hashFnv32a str = uint (fnv1a32_units str)"
proof -
  have "hashFnv32a str = uint (word_of_int (hashFnv32a_loop 0x811c9dc5 str) :: 32 word)"
    by (simp add: hashFnv32a_def ToUint32_def uint_word_of_int)
  then show ?thesis by (simp add: word_of_hash_loop fnv1a32_units_def)
qed

lemma utf8_encode_ascii:
  "\<forall>c\<in>set (s :: jsstring). c < 0x80 \<Longrightarrow> utf8_encode s = map ucast s"
proof (induction s rule: utf8_encode.induct)
  case 1
  show ?case by simp
next
  case (2 c)
  then show ?case by (simp add: utf8_unit_def)
next
  case (3 c d ds)
  from 3(3) have c: "c < 0x80" and rest: "\<forall>x\<in>set (d # ds). x < 0x80" by simp_all
  from c have nh: "\<not> isHigh c"
    by (simp add: isHigh_def word_le_nat_alt word_less_nat_alt)
  from 3(2) [OF _ rest] nh have "utf8_encode (d # ds) = map ucast (d # ds)" by simp
  with nh c show ?case by (simp add: utf8_unit_def)
qed

lemma ucast_low_byte:
  "(c :: 16 word) < 0x80 \<Longrightarrow> (ucast (ucast c :: 8 word) :: 32 word) = ucast c"
proof -
  assume "c < 0x80"
  then have lt: "uint c < 128" by (simp add: word_less_def)
  have "uint (ucast c :: 8 word) = take_bit 8 (uint c)"
    by (simp add: unsigned_ucast_eq)
  also have "\<dots> = uint c"
    using lt by (intro take_bit_int_eq_self) simp_all
  finally have "uint (ucast c :: 8 word) = uint c" .
  then have "(word_of_int (uint (ucast c :: 8 word)) :: 32 word) = word_of_int (uint c)"
    by simp
  then show ?thesis by (simp only: ucast_eq [symmetric])
qed

lemma fold_units_bytes:
  "\<forall>c\<in>set (s :: jsstring). c < 0x80 \<Longrightarrow>
     foldl (\<lambda>w c. (w XOR ucast c) * 16777619) (h :: 32 word) s
       = foldl (\<lambda>h b. (h XOR ucast b) * 0x01000193) h (map ucast s :: 8 word list)"
proof (induction s arbitrary: h)
  case Nil
  show ?case by simp
next
  case (Cons a s)
  from Cons.prems have a: "a < 0x80" and rest: "\<forall>c\<in>set s. c < 0x80" by simp_all
  show ?case by (simp add: Cons.IH [OF rest] ucast_low_byte [OF a])
qed

lemma hashFnv32a_ascii:
  "\<forall>c\<in>set (s :: jsstring). c < 0x80 \<Longrightarrow> hashFnv32a s = uint (fnv1a32 (utf8_encode s))"
  by (simp add: hashFnv32a_units fnv1a32_units_def fnv1a32_def utf8_encode_ascii fold_units_bytes)

lemma userPercentageHash_range:
  "1 \<le> userPercentageHash userId flagKey \<and> userPercentageHash userId flagKey \<le> 100"
proof -
  have "0 \<le> hashFnv32a (hashInput userId flagKey) mod 100"
    and "hashFnv32a (hashInput userId flagKey) mod 100 < 100"
    by simp_all
  then show ?thesis by (simp add: userPercentageHash_def Let_def)
qed

lemma bucket_user_123: "userPercentageHash (Some (ascii ''user-123'')) (ascii ''new-dashboard'') = 95"
  by code_simp

lemma bucket_user_456: "userPercentageHash (Some (ascii ''user-456'')) (ascii ''new-dashboard'') = 34"
  by code_simp

lemma bucket_jose: "userPercentageHash (Some jose) (ascii ''new-dashboard'') = 72"
  by code_simp

lemma spec_bucket_jose: "spec_bucket jose (ascii ''new-dashboard'') = 59"
  by code_simp

lemma ascii_colon_low: "\<forall>c\<in>set (ascii '':''). c < 0x80"
  by (simp add: ascii_def)

section \<open>Evaluating a flag without rules, segments and steps\<close>

lemma Object_values_no_segments: "Object_values (flagSegments_of [] segs) = []"
  by (simp add: flagSegments_of_def Object_values_def Object_entries_def ownKeys_def
     )

lemma evaluateFlag_plain:
  assumes "enabled flag" "rules flag = []" "segments flag = []" "rollouts flag = []"
  shows "evaluateFlag parseDate jexl clock input flag segs now =
           (if isUserInRollout (input_id input) (flag_id flag) (rollout flag)
            then flagTypeResult flag (input_id input) else Inr (getDefaultFlag flag))"
  using assms by (simp add: evaluateFlag_def Let_def Object_values_no_segments)

lemma rollout_50_user_456:
  "evaluateFlag parseDate jexl clock (mockInput (Some (ascii ''user-456'')))
     ((mockFlag (ascii ''new-dashboard''))\<lparr>rollout := 50\<rparr>) segs now
   = Inr \<lparr>result_type = TBoolean, result = JBool True, isEval = True\<rparr>"
  by (simp add: evaluateFlag_plain mockFlag_def mockInput_def isUserInRollout_def
      bucket_user_456 flagTypeResult_def)

lemma rollout_50_user_123:
  "evaluateFlag parseDate jexl clock (mockInput (Some (ascii ''user-123'')))
     ((mockFlag (ascii ''new-dashboard''))\<lparr>rollout := 50\<rparr>) segs now
   = Inr \<lparr>result_type = TBoolean, result = JBool False, isEval = False\<rparr>"
  by (simp add: evaluateFlag_plain mockFlag_def mockInput_def isUserInRollout_def
      bucket_user_123 getDefaultFlag_def)

section \<open>C4: the bucket\<close>

lemma bucket_ascii:
  assumes "isAscii identity" "isAscii flagKey"
  shows "userPercentageHash (Some identity) flagKey = spec_bucket identity flagKey"
proof -
  have "\<forall>c\<in>set (identity @ ascii '':'' @ flagKey). c < 0x80"
    using assms ascii_colon_low by (auto simp: isAscii_def list_all_iff)
  then have "hashFnv32a (identity @ ascii '':'' @ flagKey)
      = uint (fnv1a32 (utf8_encode (identity @ ascii '':'' @ flagKey)))"
    by (rule hashFnv32a_ascii)
  then show ?thesis
    by (simp add: userPercentageHash_def hashInput_def spec_bucket_def Let_def)
qed

text \<open>
  C4, as the code has it. The bucket is FNV-1a (32 bit, unsigned) folded over the UTF-16
  code units of \<open>identity + ":" + flagKey\<close>, taken modulo 100, plus 1; it lies in
  1..100. Where identity and flag key are ASCII the code units are the UTF-8 bytes and
  the bucket is the one of the byte-wise reference. The pinned buckets are 95 and 34, and
  a boolean flag with rollout 50 fires for \<open>user-456\<close> and not for \<open>user-123\<close>.
\<close>

theorem bucket_is_fnv1a_over_code_units:
  "userPercentageHash (Some identity) flagKey
     = uint (fnv1a32_units (identity @ ascii '':'' @ flagKey)) mod 100 + 1
   \<and> (isAscii identity \<and> isAscii flagKey
        \<longrightarrow> userPercentageHash (Some identity) flagKey = spec_bucket identity flagKey)
   \<and> 1 \<le> userPercentageHash (Some identity) flagKey
   \<and> userPercentageHash (Some identity) flagKey \<le> 100
   \<and> userPercentageHash (Some (ascii ''user-123'')) (ascii ''new-dashboard'') = 95
   \<and> userPercentageHash (Some (ascii ''user-456'')) (ascii ''new-dashboard'') = 34
   \<and> evaluateFlag parseDate jexl clock (mockInput (Some (ascii ''user-456'')))
        ((mockFlag (ascii ''new-dashboard''))\<lparr>rollout := 50\<rparr>) segs now
      = Inr \<lparr>result_type = TBoolean, result = JBool True, isEval = True\<rparr>
   \<and> evaluateFlag parseDate jexl clock (mockInput (Some (ascii ''user-123'')))
        ((mockFlag (ascii ''new-dashboard''))\<lparr>rollout := 50\<rparr>) segs now
      = Inr \<lparr>result_type = TBoolean, result = JBool False, isEval = False\<rparr>"
proof -
  have units: "userPercentageHash (Some identity) flagKey
      = uint (fnv1a32_units (identity @ ascii '':'' @ flagKey)) mod 100 + 1"
    by (simp add: userPercentageHash_def hashInput_def Let_def hashFnv32a_units)
  show ?thesis
    using units bucket_ascii [of identity flagKey]
      userPercentageHash_range [of "Some identity" flagKey]
      bucket_user_123 bucket_user_456
      rollout_50_user_456 [of parseDate jexl clock segs now]
      rollout_50_user_123 [of parseDate jexl clock segs now]
    by blast
qed

lemma isAscii_user_123: "isAscii (ascii ''user-123'')"
  by (simp add: isAscii_def ascii_def)

lemma isAscii_new_dashboard: "isAscii (ascii ''new-dashboard'')"
  by (simp add: isAscii_def ascii_def)

theorem bucket_is_fnv1a_over_code_units_witness:
  "isAscii (ascii ''user-123'') \<and> isAscii (ascii ''new-dashboard'')
   \<and> spec_bucket (ascii ''user-123'') (ascii ''new-dashboard'') = 95"
  using bucket_is_fnv1a_over_code_units
    [of "ascii ''user-123''" "ascii ''new-dashboard''" ex_parseDate ex_jexl 0 Map.empty None]
    isAscii_user_123 isAscii_new_dashboard
  by simp

text \<open>
  The claim as stated (the hash runs over the UTF-8 bytes) fails on an identity outside
  ASCII: for the name \<open>jose\<close> written with an acute e, whose last code unit is
  \<open>0xE9\<close> and whose UTF-8 encoding ends in the two bytes \<open>0xC3 0xA9\<close>, the code's bucket is 72 and the reference's is 59.
\<close>

theorem bucket_not_utf8_counterexample:
  "userPercentageHash (Some jose) (ascii ''new-dashboard'')
     \<noteq> spec_bucket jose (ascii ''new-dashboard'')"
  by (simp add: bucket_jose spec_bucket_jose)

section \<open>C10: a missing id\<close>

lemma hashInput_None: "hashInput None flagKey = hashInput (Some (ascii ''undefined'')) flagKey"
  by (simp add: hashInput_def)

lemma userPercentageHash_None:
  "userPercentageHash None flagKey = userPercentageHash (Some (ascii ''undefined'')) flagKey"
  by (simp add: userPercentageHash_def hashInput_None)

lemma isUserInRollout_None:
  "isUserInRollout None flagKey pct = isUserInRollout (Some (ascii ''undefined'')) flagKey pct"
  by (simp add: isUserInRollout_def userPercentageHash_None)

lemma chooseVariant_None:
  "chooseVariant None flagKey vs = chooseVariant (Some (ascii ''undefined'')) flagKey vs"
  by (simp add: chooseVariant_def userPercentageHash_None)

lemma flagTypeResult_None:
  "flagTypeResult flag None = flagTypeResult flag (Some (ascii ''undefined''))"
  by (simp add: flagTypeResult_def chooseVariant_None cong: FlagType.case_cong)

lemma every_rule_cong:
  "(\<And>e. ev e i = ev' e i') \<Longrightarrow> every_rule ev i rs = every_rule ev' i' rs"
  by (induction rs) (simp_all split: sum.splits)

lemma some_rule_cong:
  "(\<And>e. ev e i = ev' e i') \<Longrightarrow> some_rule ev i rs = some_rule ev' i' rs"
  by (induction rs) (simp_all split: sum.splits)

lemma evaluateRolloutStep_None:
  "(\<And>e. ev e i = ev' e i') \<Longrightarrow>
     evaluateRolloutStep parseDate ev step segs None flagKey i now
       = evaluateRolloutStep parseDate ev' step segs (Some (ascii ''undefined'')) flagKey i' now"
  by (simp add: evaluateRolloutStep_def isUserInRollout_None
      cong: sum.case_cong option.case_cong if_cong)

lemma evaluateRolloutSteps_None:
  "(\<And>e. ev e i = ev' e i') \<Longrightarrow>
     evaluateRolloutSteps parseDate ev steps segs None flagKey i now
       = evaluateRolloutSteps parseDate ev' steps segs (Some (ascii ''undefined'')) flagKey i' now"
proof (induction steps)
  case Nil
  show ?case by simp
next
  case (Cons step steps)
  from Cons.prems have
    "evaluateRolloutStep parseDate ev step segs None flagKey i now
       = evaluateRolloutStep parseDate ev' step segs (Some (ascii ''undefined'')) flagKey i' now"
    by (rule evaluateRolloutStep_None)
  with Cons.IH [OF Cons.prems] show ?case by (simp split: sum.splits)
qed

lemma evaluateFlag_None:
  "evaluateFlag parseDate jexl clock (input\<lparr>input_id := None\<rparr>) flag segs now
     = evaluateFlag parseDate (\<lambda>n. without_id (jexl n)) clock
         (input\<lparr>input_id := Some (ascii ''undefined'')\<rparr>) flag segs now"
proof -
  define i where "i = input\<lparr>input_id := None\<rparr>"
  define i' where "i' = input\<lparr>input_id := Some (ascii ''undefined'')\<rparr>"
  have same: "jexl n e i = without_id (jexl n) e i'" for n e
    by (simp add: without_id_def i_def i'_def)
  have ids: "input_id i = None" "input_id i' = Some (ascii ''undefined'')"
    by (simp_all add: i_def i'_def)
  have 1: "every_rule (jexl n) i rs = every_rule (without_id (jexl n)) i' rs" for n rs
    by (rule every_rule_cong) (rule same)
  have 2: "some_rule (jexl n) i rs = some_rule (without_id (jexl n)) i' rs" for n rs
    by (rule some_rule_cong) (rule same)
  have 3: "evaluateRolloutSteps parseDate (jexl n) steps sg None k i m
      = evaluateRolloutSteps parseDate (without_id (jexl n)) steps sg
          (Some (ascii ''undefined'')) k i' m" for n steps sg k m
    by (rule evaluateRolloutSteps_None) (rule same)
  have "evaluateFlag parseDate jexl clock i flag segs now
      = evaluateFlag parseDate (\<lambda>n. without_id (jexl n)) clock i' flag segs now"
    unfolding evaluateFlag_def Let_def
    by (simp add: ids 1 2 3 isUserInRollout_None flagTypeResult_None
        cong: sum.case_cong if_cong)
  then show ?thesis by (simp only: i_def i'_def)
qed

text \<open>
  C10. When the input has no \<open>id\<close>, the identity that is hashed is the text
  \<open>undefined\<close>: the bucket, the rollout test and the variant choice are those of a
  caller whose id is the string \<open>undefined\<close>, and the whole decision is the one taken
  for that identity (the expressions still see the input without an id). Every caller
  without an id therefore has the same bucket for a flag key; none is rejected.
\<close>

theorem missing_id_buckets_as_undefined:
  "hashInput None flagKey = ascii ''undefined:'' @ flagKey
   \<and> userPercentageHash None flagKey
       = userPercentageHash (Some (ascii ''undefined'')) flagKey
   \<and> isUserInRollout None flagKey pct
       = isUserInRollout (Some (ascii ''undefined'')) flagKey pct
   \<and> chooseVariant None flagKey variants
       = chooseVariant (Some (ascii ''undefined'')) flagKey variants
   \<and> evaluateFlag parseDate jexl clock (input\<lparr>input_id := None\<rparr>) flag segs now
       = evaluateFlag parseDate (\<lambda>n. without_id (jexl n)) clock
           (input\<lparr>input_id := Some (ascii ''undefined'')\<rparr>) flag segs now"
proof -
  have "hashInput None flagKey = ascii ''undefined:'' @ flagKey"
    by (simp add: hashInput_def ascii_def)
  then show ?thesis
    using userPercentageHash_None isUserInRollout_None chooseVariant_None evaluateFlag_None
    by blast
qed

section \<open>Rules\<close>

lemma every_rule_append:
  "all_truthy ev input pre \<Longrightarrow> every_rule ev input (pre @ rest) = every_rule ev input rest"
  by (induction pre) (auto simp: all_truthy_def split: sum.splits)

lemma every_rule_throws:
  assumes "all_truthy ev input pre" "ev (JStr r) input = Inl err"
  shows "every_rule ev input (pre @ r # post) = Inl err"
  using assms by (simp add: every_rule_append)

lemma every_rule_falsy:
  assumes "all_truthy ev input pre" "ev (JStr r) input = Inr v" "\<not> truthy v"
  shows "every_rule ev input (pre @ r # post) = Inr False"
  using assms by (simp add: every_rule_append)

lemma evaluateFlag_disabled:
  "\<not> enabled flag \<Longrightarrow>
     evaluateFlag parseDate jexl clock input flag segs now = Inr (getDefaultFlag flag)"
  by (simp add: evaluateFlag_def Let_def)

lemma evaluateFlag_rules_throw:
  assumes "enabled flag" "every_rule (jexl (defaultParam now clock)) input (rules flag) = Inl err"
  shows "evaluateFlag parseDate jexl clock input flag segs now = Inl err"
  using assms by (simp add: evaluateFlag_def Let_def)

lemma evaluateFlag_rules_fail:
  assumes "enabled flag" "every_rule (jexl (defaultParam now clock)) input (rules flag) = Inr False"
  shows "evaluateFlag parseDate jexl clock input flag segs now = Inr (getDefaultFlag flag)"
  using assms by (simp add: evaluateFlag_def Let_def)

lemma getDefaultFlag_rules [simp]: "getDefaultFlag (flag\<lparr>rules := rs\<rparr>) = getDefaultFlag flag"
  by (cases "flag_type flag") (simp_all add: getDefaultFlag_def)

lemma flagTypeResult_rules [simp]:
  "flagTypeResult (flag\<lparr>rules := rs\<rparr>) userId = flagTypeResult flag userId"
  by (cases "flag_type flag") (simp_all add: flagTypeResult_def cong: option.case_cong)

lemma evaluateFlag_first_rule:
  assumes "enabled flag" "rules flag = r # rest"
    "jexl (defaultParam now clock) (JStr r) input = Inr v"
  shows "evaluateFlag parseDate jexl clock input flag segs now =
           (if truthy v
            then evaluateFlag parseDate jexl clock input (flag\<lparr>rules := rest\<rparr>) segs now
            else Inr (getDefaultFlag flag))"
  using assms by (simp add: evaluateFlag_def Let_def cong: sum.case_cong if_cong)

lemma evalAll_throws:
  "evaluateFlag parseDate jexl clock input flag segs None = Inl err \<Longrightarrow>
     evalAll parseDate jexl clock input segs ((flagKey, flag) # rest) acc = Inl err"
  by simp

section \<open>Readings of the example evaluator\<close>

lemma ex_jexl_true: "ex_jexl n (JStr (ascii ''true'')) input = Inr (JBool True)"
  by (simp add: ex_jexl_def)

lemma ex_jexl_false: "ex_jexl n (JStr (ascii ''false'')) input = Inr (JBool False)"
  by (simp add: ex_jexl_def ascii_def)

lemma ex_jexl_empty_array: "ex_jexl n (JStr (ascii ''[]'')) input = Inr (JArr [])"
  by (simp add: ex_jexl_def ascii_def)

lemma ex_jexl_zero: "ex_jexl n (JStr (ascii ''0'')) input = Inr (JNum 0)"
  by (simp add: ex_jexl_def ascii_def)

lemma ex_jexl_broken:
  "ex_jexl n (JStr (ascii ''1 +'')) input = Inl (ExpressionError ''parse error'')"
  by (simp add: ex_jexl_def ascii_def)

lemma obj_assign_plain: "obj_assign [] (ascii ''plain'') v = [(ascii ''plain'', v)]"
  by (simp add: obj_assign_def protoKey_def ascii_def)

lemma mockFlag_fires:
  "evaluateFlag parseDate jexl clock input (mockFlag key) segs now
     = Inr \<lparr>result_type = TBoolean, result = JBool True, isEval = True\<rparr>"
  by (simp add: evaluateFlag_plain mockFlag_def isUserInRollout_def flagTypeResult_def)

lemma flag_type_mockFlag: "flag_type (mockFlag key) = TBoolean"
  by (simp add: mockFlag_def)

lemma brokenRuleFlag_throws:
  "evaluateFlag ex_parseDate ex_jexl 0 user123 brokenRuleFlag Map.empty None
     = Inl (ExpressionError ''parse error'')"
proof -
  have "every_rule (ex_jexl (defaultParam None 0)) user123 (rules brokenRuleFlag)
      = Inl (ExpressionError ''parse error'')"
    by (simp add: brokenRuleFlag_def mockFlag_def ex_jexl_true ex_jexl_broken)
  moreover have "enabled brokenRuleFlag"
    by (simp add: brokenRuleFlag_def mockFlag_def)
  ultimately show ?thesis by (rule evaluateFlag_rules_throw [rotated])
qed

lemma entries_tenantWithBrokenRule:
  "Object_entries (flags tenantWithBrokenRule)
     = [(ascii ''broken'', brokenRuleFlag), (ascii ''plain'', mockFlag (ascii ''plain''))]"
  by (simp add: tenantWithBrokenRule_def Object_entries_def ownKeys_def isArrayIndex_def
      isDigit_def ascii_def)

lemma entries_tenantWithoutBrokenRule:
  "Object_entries (flags tenantWithoutBrokenRule) = [(ascii ''plain'', mockFlag (ascii ''plain''))]"
  by (simp add: tenantWithoutBrokenRule_def Object_entries_def ownKeys_def isArrayIndex_def
      isDigit_def ascii_def)

lemma segments_tenantWithBrokenRule: "map_of (segments_of tenantWithBrokenRule) = Map.empty"
  by (simp add: tenantWithBrokenRule_def)

lemma segments_tenantWithoutBrokenRule: "map_of (segments_of tenantWithoutBrokenRule) = Map.empty"
  by (simp add: tenantWithoutBrokenRule_def)

section \<open>C1: a rule that fails\<close>

text \<open>
  C1 as stated fails: \<open>evaluateFlag\<close> has no handler around \<open>jexl.evalSync\<close>.
  For the enabled flag whose rules are \<open>true\<close> and the unparsable \<open>1 +\<close>, the
  decision throws the parse error instead of returning the default, and the batch route
  over a tenant that holds this flag and a plain one throws it too, although the plain
  flag alone is answered.
\<close>

theorem rule_failure_counterexample:
  "evaluateFlag ex_parseDate ex_jexl 0 user123 brokenRuleFlag Map.empty None
     \<noteq> Inr (getDefaultFlag brokenRuleFlag)
   \<and> evaluateFlag ex_parseDate ex_jexl 0 user123 brokenRuleFlag Map.empty None
     = Inl (ExpressionError ''parse error'')
   \<and> evalRoute ex_parseDate ex_jexl 0 user123 tenantWithBrokenRule
     = Inl (ExpressionError ''parse error'')
   \<and> evalRoute ex_parseDate ex_jexl 0 user123 tenantWithoutBrokenRule
     = Inr [(ascii ''plain'', TBoolean, JBool True)]"
proof -
  have "evalRoute ex_parseDate ex_jexl 0 user123 tenantWithBrokenRule
      = Inl (ExpressionError ''parse error'')"
    by (simp add: evalRoute_def entries_tenantWithBrokenRule brokenRuleFlag_throws
        segments_tenantWithBrokenRule)
  moreover have "evalRoute ex_parseDate ex_jexl 0 user123 tenantWithoutBrokenRule
      = Inr [(ascii ''plain'', TBoolean, JBool True)]"
    by (simp add: evalRoute_def entries_tenantWithoutBrokenRule mockFlag_fires
        segments_tenantWithoutBrokenRule flag_type_mockFlag obj_assign_plain)
  ultimately show ?thesis by (simp add: brokenRuleFlag_throws)
qed

text \<open>
  C1, as the code has it. A disabled flag returns its default without evaluating a rule.
  For an enabled flag the rules are evaluated in order: a rule that evaluates to a falsy
  value before any rule has failed gives the default result (later rules, malformed or
  not, are not evaluated); a rule that fails to parse or fails at run time after only
  truthy rules makes \<open>evaluateFlag\<close> throw that failure, and the batch loop, which
  calls \<open>evaluateFlag\<close> without a handler, throws it as well.
\<close>

theorem rule_failure_propagates:
  "(\<not> enabled flag \<longrightarrow>
      evaluateFlag parseDate jexl clock input flag segs now = Inr (getDefaultFlag flag))
   \<and> (enabled flag \<and> rules flag = pre @ r # post
        \<and> all_truthy (jexl (defaultParam now clock)) input pre
        \<and> jexl (defaultParam now clock) (JStr r) input = Inr v \<and> \<not> truthy v \<longrightarrow>
      evaluateFlag parseDate jexl clock input flag segs now = Inr (getDefaultFlag flag))
   \<and> (enabled flag \<and> rules flag = pre @ r # post
        \<and> all_truthy (jexl (defaultParam now clock)) input pre
        \<and> jexl (defaultParam now clock) (JStr r) input = Inl err \<longrightarrow>
      evaluateFlag parseDate jexl clock input flag segs now = Inl err)
   \<and> (evaluateFlag parseDate jexl clock input flag segs None = Inl err \<longrightarrow>
      evalAll parseDate jexl clock input segs ((flagKey, flag) # rest) acc = Inl err)"
proof (intro conjI impI)
  assume "\<not> enabled flag"
  then show "evaluateFlag parseDate jexl clock input flag segs now = Inr (getDefaultFlag flag)"
    by (rule evaluateFlag_disabled)
next
  assume a: "enabled flag \<and> rules flag = pre @ r # post
        \<and> all_truthy (jexl (defaultParam now clock)) input pre
        \<and> jexl (defaultParam now clock) (JStr r) input = Inr v \<and> \<not> truthy v"
  then have "every_rule (jexl (defaultParam now clock)) input (rules flag) = Inr False"
    by (simp add: every_rule_falsy)
  with a show "evaluateFlag parseDate jexl clock input flag segs now = Inr (getDefaultFlag flag)"
    by (simp add: evaluateFlag_rules_fail)
next
  assume a: "enabled flag \<and> rules flag = pre @ r # post
        \<and> all_truthy (jexl (defaultParam now clock)) input pre
        \<and> jexl (defaultParam now clock) (JStr r) input = Inl err"
  then have "every_rule (jexl (defaultParam now clock)) input (rules flag) = Inl err"
    by (simp add: every_rule_throws)
  with a show "evaluateFlag parseDate jexl clock input flag segs now = Inl err"
    by (simp add: evaluateFlag_rules_throw)
next
  assume "evaluateFlag parseDate jexl clock input flag segs None = Inl err"
  then show "evalAll parseDate jexl clock input segs ((flagKey, flag) # rest) acc = Inl err"
    by (rule evalAll_throws)
qed

theorem rule_failure_propagates_witness:
  "\<not> enabled disabledFlag
   \<and> evaluateFlag ex_parseDate ex_jexl 0 user123 disabledFlag Map.empty None
       = Inr \<lparr>result_type = TBoolean, result = JBool False, isEval = False\<rparr>
   \<and> enabled falseRuleFlag \<and> rules falseRuleFlag = [] @ ascii ''false'' # [ascii ''1 +'']
   \<and> all_truthy (ex_jexl 0) user123 []
   \<and> ex_jexl 0 (JStr (ascii ''false'')) user123 = Inr (JBool False) \<and> \<not> truthy (JBool False)
   \<and> evaluateFlag ex_parseDate ex_jexl 0 user123 falseRuleFlag Map.empty None
       = Inr \<lparr>result_type = TBoolean, result = JBool False, isEval = False\<rparr>
   \<and> enabled brokenRuleFlag \<and> rules brokenRuleFlag = [ascii ''true''] @ ascii ''1 +'' # []
   \<and> all_truthy (ex_jexl 0) user123 [ascii ''true'']
   \<and> ex_jexl 0 (JStr (ascii ''1 +'')) user123 = Inl (ExpressionError ''parse error'')
   \<and> evaluateFlag ex_parseDate ex_jexl 0 user123 brokenRuleFlag Map.empty None
       = Inl (ExpressionError ''parse error'')
   \<and> evalAll ex_parseDate ex_jexl 0 user123 Map.empty
        [(ascii ''broken'', brokenRuleFlag), (ascii ''plain'', mockFlag (ascii ''plain''))] []
       = Inl (ExpressionError ''parse error'')"
proof -
  have d: "\<not> enabled disabledFlag"
    and dd: "getDefaultFlag disabledFlag
      = \<lparr>result_type = TBoolean, result = JBool False, isEval = False\<rparr>"
    by (simp_all add: disabledFlag_def mockFlag_def getDefaultFlag_def)
  have f: "enabled falseRuleFlag \<and> rules falseRuleFlag = [] @ ascii ''false'' # [ascii ''1 +'']
        \<and> all_truthy (ex_jexl (defaultParam None 0)) user123 []
        \<and> ex_jexl (defaultParam None 0) (JStr (ascii ''false'')) user123 = Inr (JBool False)
        \<and> \<not> truthy (JBool False)"
    and fd: "getDefaultFlag falseRuleFlag
      = \<lparr>result_type = TBoolean, result = JBool False, isEval = False\<rparr>"
    by (simp_all add: falseRuleFlag_def mockFlag_def getDefaultFlag_def all_truthy_def
        ex_jexl_false)
  have b: "enabled brokenRuleFlag \<and> rules brokenRuleFlag = [ascii ''true''] @ ascii ''1 +'' # []
        \<and> all_truthy (ex_jexl (defaultParam None 0)) user123 [ascii ''true'']
        \<and> ex_jexl (defaultParam None 0) (JStr (ascii ''1 +'')) user123
            = Inl (ExpressionError ''parse error'')"
    by (simp add: brokenRuleFlag_def mockFlag_def all_truthy_def ex_jexl_true ex_jexl_broken)
  note t1 = rule_failure_propagates
    [of disabledFlag ex_parseDate ex_jexl 0 user123 Map.empty None]
  note t2 = rule_failure_propagates
    [of falseRuleFlag ex_parseDate ex_jexl 0 user123 Map.empty None "[]" "ascii ''false''"
      "[ascii ''1 +'']" "JBool False"]
  note t3 = rule_failure_propagates
    [of brokenRuleFlag ex_parseDate ex_jexl 0 user123 Map.empty None "[ascii ''true'']"
      "ascii ''1 +''" "[]" _ "ExpressionError ''parse error''" "ascii ''broken''"
      "[(ascii ''plain'', mockFlag (ascii ''plain''))]" "[]"]
  from t1 d dd have r1: "evaluateFlag ex_parseDate ex_jexl 0 user123 disabledFlag Map.empty None
       = Inr \<lparr>result_type = TBoolean, result = JBool False, isEval = False\<rparr>"
    by simp
  from t2 f fd have r2: "evaluateFlag ex_parseDate ex_jexl 0 user123 falseRuleFlag Map.empty None
       = Inr \<lparr>result_type = TBoolean, result = JBool False, isEval = False\<rparr>"
    by simp
  from t3 b have r3: "evaluateFlag ex_parseDate ex_jexl 0 user123 brokenRuleFlag Map.empty None
       = Inl (ExpressionError ''parse error'')"
    by blast
  with t3 have r4: "evalAll ex_parseDate ex_jexl 0 user123 Map.empty
        [(ascii ''broken'', brokenRuleFlag), (ascii ''plain'', mockFlag (ascii ''plain''))] []
       = Inl (ExpressionError ''parse error'')"
    by blast
  from d f b r1 r2 r3 r4 show ?thesis by (simp add: defaultParam_def)
qed

section \<open>C5: how a rule's value is coerced\<close>

lemma falsy_values:
  "(\<not> truthy v) = (v \<in> {JBool False, JNull, JUndefined, JNum 0, JNaN, JStr []})"
  by (cases v) auto

text \<open>
  C5 as stated fails on the empty array: \<open>every\<close> applies \<open>ToBoolean\<close>, under which
  every array is truthy. An enabled flag whose only rule evaluates to \<open>[]\<close> fires.
\<close>

theorem empty_array_rule_counterexample:
  "truthy (JArr [])
   \<and> ex_jexl 0 (JStr (ascii ''[]'')) user123 = Inr (JArr [])
   \<and> evaluateFlag ex_parseDate ex_jexl 0 user123 emptyArrayRuleFlag Map.empty None
       = Inr \<lparr>result_type = TBoolean, result = JBool True, isEval = True\<rparr>"
proof -
  have "evaluateFlag ex_parseDate ex_jexl 0 user123 emptyArrayRuleFlag Map.empty None
      = evaluateFlag ex_parseDate ex_jexl 0 user123 (emptyArrayRuleFlag\<lparr>rules := []\<rparr>)
          Map.empty None"
    by (subst evaluateFlag_first_rule [where r = "ascii ''[]''" and rest = "[]" and v = "JArr []"])
      (simp_all add: emptyArrayRuleFlag_def mockFlag_def ex_jexl_empty_array)
  also have "emptyArrayRuleFlag\<lparr>rules := []\<rparr> = mockFlag (ascii ''listed'')"
    by (simp add: emptyArrayRuleFlag_def mockFlag_def)
  finally show ?thesis
    by (simp add: mockFlag_fires ex_jexl_empty_array)
qed

text \<open>
  C5, as the code has it. The value of a rule expression is coerced by the host's
  \<open>ToBoolean\<close>: \<open>false\<close>, \<open>null\<close>, \<open>undefined\<close>, \<open>0\<close>, \<open>NaN\<close> and the empty
  string coerce to false; every other value, every array (the empty one included) and
  every object among them, coerces to true. In the decision, a first rule with a falsy
  value gives the default result, and one with a truthy value leaves the decision to the
  remaining rules and gates.
\<close>

theorem rule_value_coerced_by_ToBoolean:
  "(\<not> truthy v) = (v \<in> {JBool False, JNull, JUndefined, JNum 0, JNaN, JStr []})
   \<and> truthy (JArr xs) \<and> truthy (JObj kvs)
   \<and> (enabled flag \<and> rules flag = r # rest
        \<and> jexl (defaultParam now clock) (JStr r) input = Inr v \<longrightarrow>
      evaluateFlag parseDate jexl clock input flag segs now =
        (if truthy v
         then evaluateFlag parseDate jexl clock input (flag\<lparr>rules := rest\<rparr>) segs now
         else Inr (getDefaultFlag flag)))"
  using falsy_values [of v] evaluateFlag_first_rule [of flag r rest jexl now clock input v]
  by simp

theorem rule_value_coerced_by_ToBoolean_witness:
  "enabled zeroRuleFlag \<and> rules zeroRuleFlag = ascii ''0'' # []
   \<and> ex_jexl 0 (JStr (ascii ''0'')) user123 = Inr (JNum 0)
   \<and> \<not> truthy (JNum 0)
   \<and> evaluateFlag ex_parseDate ex_jexl 0 user123 zeroRuleFlag Map.empty None
       = Inr \<lparr>result_type = TBoolean, result = JBool False, isEval = False\<rparr>"
proof -
  have h: "enabled zeroRuleFlag \<and> rules zeroRuleFlag = ascii ''0'' # []
        \<and> ex_jexl (defaultParam None 0) (JStr (ascii ''0'')) user123 = Inr (JNum 0)"
    by (simp add: zeroRuleFlag_def mockFlag_def ex_jexl_zero)
  have d: "getDefaultFlag zeroRuleFlag
      = \<lparr>result_type = TBoolean, result = JBool False, isEval = False\<rparr>"
    by (simp add: zeroRuleFlag_def mockFlag_def getDefaultFlag_def)
  from h d rule_value_coerced_by_ToBoolean
    [of "JNum 0" "[]" "[]" zeroRuleFlag "ascii ''0''" "[]" ex_jexl None 0 user123
      ex_parseDate Map.empty]
  show ?thesis by (simp add: defaultParam_def)
qed

section \<open>C2: a bucket that no variation covers\<close>

lemma chooseVariant_underweight:
  "chooseVariant (Some (ascii ''user-123'')) (ascii ''new-dashboard'') abVariations = None"
  by (simp add: chooseVariant_def bucket_user_123 abVariations_def Let_def)

lemma flagTypeResult_no_variant:
  "flag_type flag = TVariant \<Longrightarrow> chooseVariant userId (flag_id flag) (variations flag) = None
     \<Longrightarrow> flagTypeResult flag userId = Inl (TypeError ''variant is undefined'')"
  by (simp add: flagTypeResult_def)

text \<open>
  C2 at a concrete input. The flag \<open>new-dashboard\<close> is an enabled variant flag with two
  variations of weight 30 and rollout 100; the caller \<open>user-123\<close> has bucket 95, above
  the cumulative weight 60. \<open>chooseVariant\<close> returns \<open>null\<close>, \<open>find\<close> returns
  \<open>undefined\<close>, and \<open>variant?.payload ?? variant.id\<close> reads \<open>id\<close> of
  \<open>undefined\<close>: the decision throws instead of returning the default result.
\<close>

theorem variant_underflow_throws:
  "userPercentageHash (Some (ascii ''user-123'')) (ascii ''new-dashboard'') = 95
   \<and> chooseVariant (Some (ascii ''user-123'')) (ascii ''new-dashboard'') abVariations = None
   \<and> evaluateFlag ex_parseDate ex_jexl 0 user123 underweightFlag Map.empty None
       = Inl (TypeError ''variant is undefined'')
   \<and> evaluateFlag ex_parseDate ex_jexl 0 user123 underweightFlag Map.empty None
       \<noteq> Inr (getDefaultFlag underweightFlag)"
proof -
  have "evaluateFlag ex_parseDate ex_jexl 0 user123 underweightFlag Map.empty None
      = flagTypeResult underweightFlag (Some (ascii ''user-123''))"
    by (simp add: evaluateFlag_plain underweightFlag_def mockFlag_def user123_def mockInput_def
        isUserInRollout_def)
  also have "\<dots> = Inl (TypeError ''variant is undefined'')"
    by (rule flagTypeResult_no_variant)
      (simp_all add: underweightFlag_def mockFlag_def chooseVariant_underweight)
  finally show ?thesis
    by (simp add: bucket_user_123 chooseVariant_underweight)
qed

section \<open>One rollout step\<close>

lemma step_not_started:
  "parseDate (start step) = Some t \<Longrightarrow> now < t \<Longrightarrow>
     evaluateRolloutStep parseDate ev step segs uid fk input now = Inr (JBool False)"
  by (simp add: evaluateRolloutStep_def)

lemma step_truthy_started:
  assumes "parseDate (start step) = Some t"
    "evaluateRolloutStep parseDate ev step segs uid fk input now = Inr v" "truthy v"
  shows "t \<le> now"
proof (rule ccontr)
  assume "\<not> t \<le> now"
  then have "now < t" by simp
  with assms(1) have "evaluateRolloutStep parseDate ev step segs uid fk input now = Inr (JBool False)"
    by (rule step_not_started)
  with assms(2,3) show False by auto
qed

lemma step_unparsable_start:
  "parseDate (start step) = None \<Longrightarrow>
     evaluateRolloutStep parseDate ev step segs uid fk input now
       = evaluateRolloutStep (parseDate(start step \<mapsto> now)) ev step segs uid fk input now"
  by (simp add: evaluateRolloutStep_def)

lemma step_bare:
  assumes "parseDate (start step) = None \<or> parseDate (start step) = Some t \<and> t \<le> now"
    "percentage step = None" "segment step = None"
  shows "evaluateRolloutStep parseDate ev step segs uid fk input now = Inr (JBool True)"
  using assms by (auto simp: evaluateRolloutStep_def js_and_def)



lemma step_segment_missing:
  assumes "segment step = Some s" "s \<noteq> []" "s \<notin> set objectPrototypeKeys" "segs s = None"
  shows "evaluateRolloutStep parseDate ev step segs uid fk input now = Inr (JBool False)"
  using assms by (auto simp: evaluateRolloutStep_def js_and_def prop_read_def split: option.splits)




lemma map_of_obj_set: "map_of (obj_set obj k v) = (map_of obj)(k \<mapsto> v)"
  by (induction obj) auto

lemma map_of_obj_assign:
  "map_of (obj_assign obj k v)
     = (if k = protoKey \<and> map_of obj k = None then map_of obj else (map_of obj)(k \<mapsto> v))"
  by (auto simp: obj_assign_def map_of_obj_set)

lemma map_of_flagSegments_fold:
  "map_of acc protoKey = None \<Longrightarrow>
     map_of (foldl (\<lambda>acc segmentKey. obj_assign acc segmentKey (f segmentKey)) acc keys) k
       = (if k \<in> set keys \<and> k \<noteq> protoKey then Some (f k) else map_of acc k)"
proof (induction keys arbitrary: acc)
  case Nil
  show ?case by simp
next
  case (Cons a keys)
  have "map_of (obj_assign acc a (f a)) protoKey = None"
    using Cons.prems by (simp add: map_of_obj_assign)
  from Cons.IH [OF this] Cons.prems show ?case
    by (auto simp: map_of_obj_assign)
qed

lemma map_of_flagSegments:
  "map_of (flagSegments_of keys segs) k
     = (if k \<in> set keys \<and> k \<noteq> protoKey then Some (segment_read segs k) else None)"
  by (simp add: flagSegments_of_def map_of_flagSegments_fold)

lemma flagSegments_drop_proto:
  "flagSegments_of keys segs = flagSegments_of (own_segment_ids keys) segs"
proof -
  have "foldl (\<lambda>acc segmentKey. obj_assign acc segmentKey (f segmentKey)) acc keys
      = foldl (\<lambda>acc segmentKey. obj_assign acc segmentKey (f segmentKey)) acc
          (filter (\<lambda>k. k \<noteq> protoKey) keys)"
    if "map_of acc protoKey = None" for f :: "jsstring \<Rightarrow> jsval" and acc
    using that
  proof (induction keys arbitrary: acc)
    case Nil
    show ?case by simp
  next
    case (Cons a keys)
    have inv: "map_of (obj_assign acc a (f a)) protoKey = None"
      using Cons.prems by (simp add: map_of_obj_assign)
    show ?case
    proof (cases "a = protoKey")
      case True
      with Cons.prems have "obj_assign acc a (f a) = acc" by (simp add: obj_assign_def)
      with True Cons.IH [OF Cons.prems] show ?thesis by simp
    next
      case False
      with Cons.IH [OF inv] show ?thesis by simp
    qed
  qed
  then show ?thesis by (simp add: flagSegments_of_def own_segment_ids_def)
qed


lemma segment_read_own: "segs k = Some e \<Longrightarrow> segment_read segs k = JStr e"
  by (simp add: segment_read_def prop_read_def)



lemma ex_parseDate_jan2024: "ex_parseDate jan2024 = Some 1704067200000"
  by (simp add: ex_parseDate_def jan2024_def)

lemma ex_parseDate_soon: "ex_parseDate (ascii ''soon'') = None"
  by (simp add: ex_parseDate_def ascii_def)



lemma beta_not_inherited: "ascii ''beta'' \<notin> set objectPrototypeKeys"
  by (simp add: objectPrototypeKeys_def ascii_def)




lemma ascii_beta_nonempty: "ascii ''beta'' \<noteq> []" and ascii_true_nonempty: "ascii ''true'' \<noteq> []"
  by (simp_all add: ascii_def)

section \<open>C3: the time gate of a step\<close>

text \<open>
  C3 as stated fails twice. A step whose \<open>start\<close> does not parse is not failed: the
  time is \<open>NaN\<close>, \<open>now < NaN\<close> is false, and the step goes on as if it had started
  (here it passes with percentage 100). And a started step that sets neither percentage
  nor segment passes: both conditions default to true.
\<close>

theorem step_time_gate_counterexample:
  "ex_parseDate (start unparsableStep) = None
   \<and> evaluateRolloutStep ex_parseDate (ex_jexl 0) unparsableStep noSegments
        (Some (ascii ''user-123'')) (ascii ''new-dashboard'') user123 0 = Inr (JBool True)
   \<and> percentage bareStep = None \<and> segment bareStep = None
   \<and> evaluateRolloutStep ex_parseDate (ex_jexl 0) bareStep noSegments
        (Some (ascii ''user-123'')) (ascii ''new-dashboard'') user123 1704067200000
      = Inr (JBool True)"
  by (simp add: evaluateRolloutStep_def unparsableStep_def bareStep_def ex_parseDate_soon
      ex_parseDate_jan2024 isUserInRollout_def js_and_def)

text \<open>
  C3, as the code has it. A step whose \<open>start\<close> parses to a timestamp fails while
  \<open>now\<close> is before it, so it passes only if \<open>now >= parse(step.start)\<close>. A step whose
  \<open>start\<close> does not parse has no time gate: it is evaluated as a step that starts
  now. A step under no time gate that sets neither percentage nor segment passes.
\<close>

theorem step_time_gate:
  "(parseDate (start step) = Some t \<and> now < t \<longrightarrow>
      evaluateRolloutStep parseDate ev step segs uid fk input now = Inr (JBool False))
   \<and> (parseDate (start step) = Some t
        \<and> evaluateRolloutStep parseDate ev step segs uid fk input now = Inr v \<and> truthy v \<longrightarrow>
      t \<le> now)
   \<and> (parseDate (start step) = None \<longrightarrow>
      evaluateRolloutStep parseDate ev step segs uid fk input now
        = evaluateRolloutStep (parseDate(start step \<mapsto> now)) ev step segs uid fk input now)
   \<and> ((parseDate (start step) = None \<or> parseDate (start step) = Some t \<and> t \<le> now)
        \<and> percentage step = None \<and> segment step = None \<longrightarrow>
      evaluateRolloutStep parseDate ev step segs uid fk input now = Inr (JBool True))"
  using step_not_started [of parseDate step t now ev segs uid fk input]
    step_truthy_started [of parseDate step t ev segs uid fk input now v]
    step_unparsable_start [of parseDate step ev segs uid fk input now]
    step_bare [of parseDate step t now ev segs uid fk input]
  by blast

theorem step_time_gate_witness:
  "ex_parseDate (start bareStep) = Some 1704067200000 \<and> (0 :: int) < 1704067200000
   \<and> evaluateRolloutStep ex_parseDate (ex_jexl 0) bareStep noSegments None
        (ascii ''f'') user123 0 = Inr (JBool False)
   \<and> (1704067200000 :: int) \<le> 1718000000000
   \<and> percentage bareStep = None \<and> segment bareStep = None
   \<and> evaluateRolloutStep ex_parseDate (ex_jexl 0) bareStep noSegments None
        (ascii ''f'') user123 1718000000000 = Inr (JBool True)
   \<and> truthy (JBool True)
   \<and> ex_parseDate (start unparsableStep) = None
   \<and> evaluateRolloutStep ex_parseDate (ex_jexl 0) unparsableStep noSegments None
        (ascii ''f'') user123 0
      = evaluateRolloutStep (ex_parseDate(start unparsableStep \<mapsto> 0)) (ex_jexl 0)
          unparsableStep noSegments None (ascii ''f'') user123 0"
proof -
  have a: "ex_parseDate (start bareStep) = Some 1704067200000"
    and b: "percentage bareStep = None" "segment bareStep = None"
    and c: "ex_parseDate (start unparsableStep) = None"
    by (simp_all add: bareStep_def unparsableStep_def ex_parseDate_jan2024 ex_parseDate_soon)
  note t1 = step_time_gate [of ex_parseDate bareStep 1704067200000 0 "ex_jexl 0" noSegments
      None "ascii ''f''" user123]
  note t2 = step_time_gate [of ex_parseDate bareStep 1704067200000 1718000000000 "ex_jexl 0"
      noSegments None "ascii ''f''" user123 "JBool True"]
  note t3 = step_time_gate [of ex_parseDate unparsableStep _ 0 "ex_jexl 0" noSegments
      None "ascii ''f''" user123]
  from t1 a have r1: "evaluateRolloutStep ex_parseDate (ex_jexl 0) bareStep noSegments None
        (ascii ''f'') user123 0 = Inr (JBool False)"
    by simp
  from t2 a b have r2: "evaluateRolloutStep ex_parseDate (ex_jexl 0) bareStep noSegments None
        (ascii ''f'') user123 1718000000000 = Inr (JBool True)"
    by simp
  from t3 c have r3: "evaluateRolloutStep ex_parseDate (ex_jexl 0) unparsableStep noSegments None
        (ascii ''f'') user123 0
      = evaluateRolloutStep (ex_parseDate(start unparsableStep \<mapsto> 0)) (ex_jexl 0)
          unparsableStep noSegments None (ascii ''f'') user123 0"
    by blast
  from a b c r1 r2 r3 show ?thesis by simp
qed

section \<open>C6: the segment of a step\<close>




section \<open>The decision after the rules\<close>

lemma every_rule_all_truthy: "all_truthy ev input rs \<Longrightarrow> every_rule ev input rs = Inr True"
  using every_rule_append [of ev input rs "[]"] by simp

lemma getDefaultFlag_rollout [simp]: "getDefaultFlag (flag\<lparr>rollout := r\<rparr>) = getDefaultFlag flag"
  by (cases "flag_type flag") (simp_all add: getDefaultFlag_def)

lemma flagTypeResult_rollout [simp]:
  "flagTypeResult (flag\<lparr>rollout := r\<rparr>) userId = flagTypeResult flag userId"
  by (cases "flag_type flag") (simp_all add: flagTypeResult_def cong: option.case_cong)

lemma getDefaultFlag_segments [simp]: "getDefaultFlag (flag\<lparr>segments := ks\<rparr>) = getDefaultFlag flag"
  by (cases "flag_type flag") (simp_all add: getDefaultFlag_def)

lemma flagTypeResult_segments [simp]:
  "flagTypeResult (flag\<lparr>segments := ks\<rparr>) userId = flagTypeResult flag userId"
  by (cases "flag_type flag") (simp_all add: flagTypeResult_def cong: option.case_cong)

lemma flagTypeResult_isEval: "flagTypeResult flag userId = Inr res \<Longrightarrow> isEval res"
  by (cases "flag_type flag")
    (auto simp: flagTypeResult_def Let_def split: option.splits)

lemma getDefaultFlag_not_isEval: "\<not> isEval (getDefaultFlag flag)"
  by (cases "flag_type flag") (simp_all add: getDefaultFlag_def)

lemma evaluateFlag_base_rollout_unused:
  "rollouts flag \<noteq> [] \<Longrightarrow>
     evaluateFlag parseDate jexl clock input (flag\<lparr>rollout := r\<rparr>) segs now
       = evaluateFlag parseDate jexl clock input flag segs now"
  by (simp add: evaluateFlag_def Let_def cong: sum.case_cong if_cong)

lemma evaluateFlag_with_steps:
  assumes "enabled flag" "all_truthy (jexl (defaultParam now clock)) input (rules flag)"
    "rollouts flag \<noteq> []"
  shows "evaluateFlag parseDate jexl clock input flag segs now =
     (case evaluateRolloutSteps parseDate (jexl (defaultParam now clock)) (rollouts flag)
             (map_of (flagSegments_of (segments flag) segs)) (input_id input) (flag_id flag)
             input (defaultParam now clock) of
        Inl err \<Rightarrow> Inl err
      | Inr included \<Rightarrow>
          if included then flagTypeResult flag (input_id input)
          else Inr (getDefaultFlag flag))"
  using assms every_rule_all_truthy [OF assms(2)]
  by (auto simp: evaluateFlag_def Let_def split: sum.splits)

lemma evaluateFlag_fires_iff_steps:
  assumes "enabled flag" "all_truthy (jexl (defaultParam now clock)) input (rules flag)"
    "rollouts flag \<noteq> []" "flagTypeResult flag (input_id input) = Inr typed"
  shows "(\<exists>res. evaluateFlag parseDate jexl clock input flag segs now = Inr res \<and> isEval res)
     = (evaluateRolloutSteps parseDate (jexl (defaultParam now clock)) (rollouts flag)
          (map_of (flagSegments_of (segments flag) segs)) (input_id input) (flag_id flag)
          input (defaultParam now clock) = Inr True)"
proof -
  note eq = evaluateFlag_with_steps [of flag jexl now clock input parseDate segs]
  from assms(1-3) eq have "evaluateFlag parseDate jexl clock input flag segs now =
     (case evaluateRolloutSteps parseDate (jexl (defaultParam now clock)) (rollouts flag)
             (map_of (flagSegments_of (segments flag) segs)) (input_id input) (flag_id flag)
             input (defaultParam now clock) of
        Inl err \<Rightarrow> Inl err
      | Inr included \<Rightarrow>
          if included then flagTypeResult flag (input_id input)
          else Inr (getDefaultFlag flag))"
    by blast
  then show ?thesis
    using flagTypeResult_isEval [OF assms(4)] getDefaultFlag_not_isEval [of flag] assms(4)
    by (auto split: sum.splits)
qed

lemma steps_skip_failed:
  "all_falsy_steps parseDate ev segs uid fk input now pre \<Longrightarrow>
     evaluateRolloutSteps parseDate ev (pre @ rest) segs uid fk input now
       = evaluateRolloutSteps parseDate ev rest segs uid fk input now"
  by (induction pre) (auto simp: all_falsy_steps_def split: sum.splits)

lemma steps_first_pass:
  assumes "all_falsy_steps parseDate ev segs uid fk input now pre"
    "evaluateRolloutStep parseDate ev step segs uid fk input now = Inr v" "truthy v"
  shows "evaluateRolloutSteps parseDate ev (pre @ step # post) segs uid fk input now = Inr True"
  using assms by (simp add: steps_skip_failed)

section \<open>C7: rollout steps take precedence, in order\<close>

text \<open>
  C7. With \<open>n\<close> the time of the decision and \<open>evalSteps\<close> the walk of
  \<open>evaluateRolloutSteps\<close> over \<open>F.rollouts\<close>:
  \<^item> a flag with rollout steps decides the same whatever its base \<open>rollout\<close> is;
  \<^item> an enabled flag with rollout steps whose rules pass reaches its typed result (the
    final \<open>switch\<close>) when \<open>evalSteps\<close> returns true, returns the default when it
    returns false, and throws what it throws; where the typed result is a value, the
    decision has \<open>isEval\<close> true iff \<open>evalSteps\<close> returns true;
  \<^item> the walk skips the steps that fail, returns true at the first step that passes,
    whatever follows it, and returns false on no steps.
\<close>

theorem rollout_steps_take_precedence:
  "(rollouts flag \<noteq> [] \<longrightarrow>
      evaluateFlag parseDate jexl clock input (flag\<lparr>rollout := r\<rparr>) segs now
        = evaluateFlag parseDate jexl clock input flag segs now)
   \<and> (enabled flag \<and> all_truthy (jexl (defaultParam now clock)) input (rules flag)
        \<and> rollouts flag \<noteq> [] \<longrightarrow>
      evaluateFlag parseDate jexl clock input flag segs now =
        (case evaluateRolloutSteps parseDate (jexl (defaultParam now clock)) (rollouts flag)
                (map_of (flagSegments_of (segments flag) segs)) (input_id input)
                (flag_id flag) input (defaultParam now clock) of
           Inl err \<Rightarrow> Inl err
         | Inr included \<Rightarrow>
             if included then flagTypeResult flag (input_id input)
             else Inr (getDefaultFlag flag)))
   \<and> (enabled flag \<and> all_truthy (jexl (defaultParam now clock)) input (rules flag)
        \<and> rollouts flag \<noteq> [] \<and> flagTypeResult flag (input_id input) = Inr typed \<longrightarrow>
      (\<exists>res. evaluateFlag parseDate jexl clock input flag segs now = Inr res \<and> isEval res)
        = (evaluateRolloutSteps parseDate (jexl (defaultParam now clock)) (rollouts flag)
             (map_of (flagSegments_of (segments flag) segs)) (input_id input)
             (flag_id flag) input (defaultParam now clock) = Inr True))
   \<and> (all_falsy_steps parseDate ev stepSegs uid fk input m pre \<longrightarrow>
      evaluateRolloutSteps parseDate ev (pre @ rest) stepSegs uid fk input m
        = evaluateRolloutSteps parseDate ev rest stepSegs uid fk input m)
   \<and> (all_falsy_steps parseDate ev stepSegs uid fk input m pre
        \<and> evaluateRolloutStep parseDate ev step stepSegs uid fk input m = Inr v \<and> truthy v \<longrightarrow>
      evaluateRolloutSteps parseDate ev (pre @ step # post) stepSegs uid fk input m = Inr True)
   \<and> evaluateRolloutSteps parseDate ev [] stepSegs uid fk input m = Inr False"
  using evaluateFlag_base_rollout_unused [of flag parseDate jexl clock input r segs now]
    evaluateFlag_with_steps [of flag jexl now clock input parseDate segs]
    evaluateFlag_fires_iff_steps [of flag jexl now clock input typed parseDate segs]
    steps_skip_failed [of parseDate ev stepSegs uid fk input m pre rest]
    steps_first_pass [of parseDate ev stepSegs uid fk input m pre step v post]
  by simp

lemma ascii_empty_iff [simp]: "(ascii s = []) = (s = [])"
  by (simp add: ascii_def)

lemma mid2024_after_jan: "(1704067200000 :: int) \<le> mid2024"
  by (simp add: mid2024_def)

lemma broken_not_proto: "ascii ''broken'' \<noteq> protoKey"
  by (simp add: protoKey_def ascii_def)

lemma staged_step_segments:
  "map_of (flagSegments_of (segments stagedFlag) stagedSegments) (ascii ''beta'') = None"
  "map_of (flagSegments_of (segments stagedFlag) stagedSegments) (ascii ''broken'')
     = Some (JStr (ascii ''1 +''))"
proof -
  have "ascii ''beta'' \<noteq> ascii ''broken''" by (simp add: ascii_def)
  then show "map_of (flagSegments_of (segments stagedFlag) stagedSegments) (ascii ''beta'')
      = None"
    by (simp add: map_of_flagSegments stagedFlag_def mockFlag_def)
  have "stagedSegments (ascii ''broken'') = Some (ascii ''1 +'')"
    by (simp add: stagedSegments_def ascii_def)
  then show "map_of (flagSegments_of (segments stagedFlag) stagedSegments) (ascii ''broken'')
      = Some (JStr (ascii ''1 +''))"
    by (simp add: map_of_flagSegments stagedFlag_def mockFlag_def broken_not_proto
        segment_read_own)
qed

lemma stagedFlag_fields:
  "enabled stagedFlag" "rules stagedFlag = []" "flag_id stagedFlag = ascii ''staged''"
  "rollouts stagedFlag = [betaStep] @ bareStep # [brokenStep]" "rollouts stagedFlag \<noteq> []"
  "flagTypeResult stagedFlag uid
     = Inr \<lparr>result_type = TBoolean, result = JBool True, isEval = True\<rparr>"
  by (simp_all add: stagedFlag_def mockFlag_def flagTypeResult_def)

lemma staged_betaStep_fails:
  "evaluateRolloutStep ex_parseDate ev betaStep
     (map_of (flagSegments_of (segments stagedFlag) stagedSegments)) uid fk input now
   = Inr (JBool False)"
  by (rule step_segment_missing [where s = "ascii ''beta''"])
    (simp_all add: betaStep_def ascii_beta_nonempty staged_step_segments beta_not_inherited)

lemma staged_bareStep_passes:
  "evaluateRolloutStep ex_parseDate ev bareStep segs uid fk input mid2024 = Inr (JBool True)"
  by (rule step_bare [where t = 1704067200000])
    (simp_all add: bareStep_def ex_parseDate_jan2024 mid2024_after_jan)

lemma staged_brokenStep_throws:
  "evaluateRolloutStep ex_parseDate (ex_jexl n) brokenStep
     (map_of (flagSegments_of (segments stagedFlag) stagedSegments)) uid fk input mid2024
   = Inl (ExpressionError ''parse error'')"
  by (simp add: evaluateRolloutStep_def brokenStep_def ex_parseDate_jan2024 mid2024_def
      staged_step_segments ex_jexl_broken prop_read_def)

theorem rollout_steps_take_precedence_witness:
  "rollouts stagedFlag \<noteq> [] \<and> rollout stagedFlag = 0
   \<and> evaluateFlag ex_parseDate ex_jexl 0 user123 (stagedFlag\<lparr>rollout := 100\<rparr>) stagedSegments
        (Some mid2024)
      = evaluateFlag ex_parseDate ex_jexl 0 user123 stagedFlag stagedSegments (Some mid2024)
   \<and> enabled stagedFlag \<and> all_truthy (ex_jexl mid2024) user123 (rules stagedFlag)
   \<and> rollouts stagedFlag = [betaStep] @ bareStep # [brokenStep]
   \<and> all_falsy_steps ex_parseDate (ex_jexl mid2024)
        (map_of (flagSegments_of (segments stagedFlag) stagedSegments))
        (input_id user123) (flag_id stagedFlag) user123 mid2024 [betaStep]
   \<and> evaluateRolloutStep ex_parseDate (ex_jexl mid2024) bareStep
        (map_of (flagSegments_of (segments stagedFlag) stagedSegments))
        (input_id user123) (flag_id stagedFlag) user123 mid2024 = Inr (JBool True)
   \<and> truthy (JBool True)
   \<and> evaluateRolloutStep ex_parseDate (ex_jexl mid2024) brokenStep
        (map_of (flagSegments_of (segments stagedFlag) stagedSegments))
        (input_id user123) (flag_id stagedFlag) user123 mid2024
      = Inl (ExpressionError ''parse error'')
   \<and> evaluateRolloutSteps ex_parseDate (ex_jexl mid2024) (rollouts stagedFlag)
        (map_of (flagSegments_of (segments stagedFlag) stagedSegments))
        (input_id user123) (flag_id stagedFlag) user123 mid2024 = Inr True
   \<and> flagTypeResult stagedFlag (input_id user123)
      = Inr \<lparr>result_type = TBoolean, result = JBool True, isEval = True\<rparr>
   \<and> evaluateFlag ex_parseDate ex_jexl 0 user123 stagedFlag stagedSegments (Some mid2024)
      = Inr \<lparr>result_type = TBoolean, result = JBool True, isEval = True\<rparr>"
proof -
  let ?S = "map_of (flagSegments_of (segments stagedFlag) stagedSegments)"
  have n: "defaultParam (Some mid2024) 0 = mid2024"
    by (simp add: defaultParam_def)
  have z: "rollout stagedFlag = 0"
    by (simp add: stagedFlag_def mockFlag_def)
  have rules: "all_truthy (ex_jexl mid2024) user123 (rules stagedFlag)"
    by (simp add: stagedFlag_fields all_truthy_def)
  have pre: "all_falsy_steps ex_parseDate (ex_jexl mid2024) ?S (input_id user123)
      (flag_id stagedFlag) user123 mid2024 [betaStep]"
    by (simp add: all_falsy_steps_def staged_betaStep_fails)
  have pass: "evaluateRolloutStep ex_parseDate (ex_jexl mid2024) bareStep ?S (input_id user123)
      (flag_id stagedFlag) user123 mid2024 = Inr (JBool True)"
    by (rule staged_bareStep_passes)
  have broken: "evaluateRolloutStep ex_parseDate (ex_jexl mid2024) brokenStep ?S
      (input_id user123) (flag_id stagedFlag) user123 mid2024
      = Inl (ExpressionError ''parse error'')"
    by (rule staged_brokenStep_throws)
  note t = rollout_steps_take_precedence
    [of stagedFlag ex_parseDate ex_jexl 0 user123 100 stagedSegments "Some mid2024"
      "\<lparr>result_type = TBoolean, result = JBool True, isEval = True\<rparr>"
      "ex_jexl mid2024" ?S "input_id user123" "flag_id stagedFlag" mid2024 "[betaStep]"
      "bareStep # [brokenStep]" bareStep "JBool True" "[brokenStep]"]
  from t pre pass have walk: "evaluateRolloutSteps ex_parseDate (ex_jexl mid2024)
      ([betaStep] @ bareStep # [brokenStep]) ?S (input_id user123) (flag_id stagedFlag)
      user123 mid2024 = Inr True"
    by simp
  from t stagedFlag_fields(5) have base:
    "evaluateFlag ex_parseDate ex_jexl 0 user123 (stagedFlag\<lparr>rollout := 100\<rparr>) stagedSegments
        (Some mid2024)
      = evaluateFlag ex_parseDate ex_jexl 0 user123 stagedFlag stagedSegments (Some mid2024)"
    by blast
  from t rules stagedFlag_fields(1,5) n
  have "evaluateFlag ex_parseDate ex_jexl 0 user123 stagedFlag stagedSegments (Some mid2024) =
        (case evaluateRolloutSteps ex_parseDate (ex_jexl mid2024) (rollouts stagedFlag) ?S
                (input_id user123) (flag_id stagedFlag) user123 mid2024 of
           Inl err \<Rightarrow> Inl err
         | Inr included \<Rightarrow>
             if included then flagTypeResult stagedFlag (input_id user123)
             else Inr (getDefaultFlag stagedFlag))"
    by simp
  with walk have fires:
    "evaluateFlag ex_parseDate ex_jexl 0 user123 stagedFlag stagedSegments (Some mid2024)
      = Inr \<lparr>result_type = TBoolean, result = JBool True, isEval = True\<rparr>"
    by (simp add: stagedFlag_fields)
  from z rules pre pass broken walk base fires show ?thesis
    by (simp add: stagedFlag_fields)
qed

section \<open>The values of a flag's segment object\<close>






lemma Object_values_flagSegments_empty:
  assumes "own_segment_ids keys = []"
  shows "Object_values (flagSegments_of keys segs) = []"
proof -
  have "flagSegments_of keys segs = flagSegments_of [] segs"
    using flagSegments_drop_proto [of keys segs] assms by simp
  then show ?thesis by (simp add: Object_values_no_segments)
qed















section \<open>C8: segments without rollout steps\<close>







section \<open>C9: synchronising two environments\<close>






















end
